theory Spec2Isabelle
  imports Main
begin

section \<open>The offline cache agent of ayyappa_songs\<close>

text \<open>
  The repository holds two revisions of one service worker: the revision whose cache is
  named \<open>ayyappa-songs-v5-cache\<close> (suffix \<open>_v5\<close> below) and the revision whose cache is
  named \<open>ayyappa-songs-v7\<close> (suffix \<open>_v7\<close>), and the page script \<open>app.js\<close> that talks to
  the worker.  Every handler is embedded as a function from the world before the event to
  the handler's outcome and the world once every promise the handler started has settled.

  The host's interfaces (CacheStorage, Cache, fetch, URL, console) are part of the model:
  \<^item> a cache is an association list from the URL of a request, without its fragment, to
    the response, cache storage an association list from cache name to cache, both in
    creation order;
  \<^item> the network is a function from a request to \<open>Some\<close> response, or \<open>None\<close> when
    \<open>fetch\<close> rejects; every call is recorded in \<open>net_log\<close>;
  \<^item> cache matching compares the method and the URL without its fragment (no \<open>Vary\<close>
    header);
  \<^item> the emoji of the console messages are left out of the message texts.
\<close>

subsection \<open>Requests, responses, the world\<close>

record request =
  "method" :: string
  url :: string
  mode :: string

record response =
  status :: nat
  rtype :: string
  body :: string

datatype console_entry = Log string | Warn string | Error string

type_synonym cache = "(string \<times> response) list"
type_synonym cache_storage = "(string \<times> cache) list"

record world =
  caches :: cache_storage
  net_log :: "request list"
  console :: "console_entry list"

text \<open>\<open>response.ok\<close>: the status is in the range 200..299.\<close>

definition ok :: "response \<Rightarrow> bool" where
  "ok r = (200 \<le> status r \<and> status r \<le> 299)"

text \<open>\<open>s.startsWith(p)\<close>.\<close>

fun starts_with :: "string \<Rightarrow> string \<Rightarrow> bool" where
  "starts_with s [] = True"
| "starts_with [] (p # ps) = False"
| "starts_with (c # cs) (p # ps) = (c = p \<and> starts_with cs ps)"

subsection \<open>URLs\<close>

text \<open>
  The \<open>url\<close> of a request is a serialised URL \<open>scheme://authority/path?query#fragment\<close>.
  The cache compares URLs without their fragment: \<open>cache_key\<close> is the URL up to the
  first \<open>#\<close>.
\<close>

definition cache_key :: "string \<Rightarrow> string" where
  "cache_key u = takeWhile (\<lambda>c. c \<noteq> CHR ''#'') u"

text \<open>
  \<open>new URL(u).origin\<close> for a serialised http(s) URL without credentials (the host is
  already lower case and a default port already dropped): of the URL without its
  fragment, the scheme with \<open>://\<close> and the authority, which ends at the first \<open>/\<close>
  or \<open>?\<close>.
\<close>

definition url_origin :: "string \<Rightarrow> string" where
  "url_origin u =
     (let v = cache_key u;
          n = length (takeWhile (\<lambda>c. c \<noteq> CHR '':'') v) + 3
      in take n v @ takeWhile (\<lambda>c. c \<noteq> CHR ''/'' \<and> c \<noteq> CHR ''?'') (drop n v))"

text \<open>
  The environment of a worker: \<open>location\<close> is \<open>self.location.href\<close>, the URL of the
  worker's script; \<open>parse_url s\<close> is \<open>new URL(s, self.location).href\<close>, the host's URL
  parser applied to a string that arrives at run time, \<open>None\<close> when the parser throws;
  \<open>network\<close> is the network.  \<open>origin\<close> is \<open>self.location.origin\<close>.
\<close>

record env =
  location :: string
  parse_url :: "string \<Rightarrow> string option"
  network :: "request \<Rightarrow> response option"

definition origin :: "env \<Rightarrow> string" where
  "origin e = url_origin (location e)"

text \<open>
  The URL strings written in the two revisions (the manifests and the offline page) are
  path-absolute, with no dot segment, no second slash and no fragment: parsed against
  the worker's location, such a literal is the origin followed by the literal.
  \<open>resolve_url\<close> and \<open>request_of\<close> are for these literals only.  The request built from a
  string is a \<open>GET\<close> in mode \<open>cors\<close>.
\<close>

definition resolve_url :: "env \<Rightarrow> string \<Rightarrow> string" where
  "resolve_url e p = origin e @ p"

definition request_of :: "env \<Rightarrow> string \<Rightarrow> request" where
  "request_of e p = \<lparr>method = ''GET'', url = resolve_url e p, mode = ''cors''\<rparr>"

text \<open>
  \<open>new Request(s)\<close> for a string \<open>s\<close> that arrives at run time (the \<open>url\<close> of a message,
  the URL that the page builds from a song id): the host parses it, and the constructor
  throws when the parser does.
\<close>

definition get_request :: "string \<Rightarrow> request" where
  "get_request a = \<lparr>method = ''GET'', url = a, mode = ''cors''\<rparr>"

definition new_request :: "env \<Rightarrow> string \<Rightarrow> request option" where
  "new_request e s = (case parse_url e s of None \<Rightarrow> None | Some a \<Rightarrow> Some (get_request a))"

subsection \<open>The cache store\<close>

text \<open>\<open>cache.match(request)\<close>: only a \<open>GET\<close> request matches an entry, by its URL
  without the fragment.\<close>

definition cache_match :: "cache \<Rightarrow> request \<Rightarrow> response option" where
  "cache_match c q = (if method q = ''GET'' then map_of c (cache_key (url q)) else None)"

text \<open>\<open>caches.match(request)\<close>: the first match over the caches in creation order.\<close>

fun caches_match :: "cache_storage \<Rightarrow> request \<Rightarrow> response option" where
  "caches_match [] q = None"
| "caches_match ((n, c) # st) q =
     (case cache_match c q of Some r \<Rightarrow> Some r | None \<Rightarrow> caches_match st q)"

text \<open>\<open>caches.keys()\<close>, \<open>caches.has(name)\<close>, \<open>caches.delete(name)\<close>, \<open>caches.open(name)\<close>
  (which creates an empty cache when there is none of that name).\<close>

definition caches_keys :: "cache_storage \<Rightarrow> string list" where
  "caches_keys st = map fst st"

definition caches_has :: "cache_storage \<Rightarrow> string \<Rightarrow> bool" where
  "caches_has st n = (n \<in> set (caches_keys st))"

definition caches_delete :: "string \<Rightarrow> cache_storage \<Rightarrow> cache_storage" where
  "caches_delete n st = filter (\<lambda>p. fst p \<noteq> n) st"

definition caches_open :: "string \<Rightarrow> cache_storage \<Rightarrow> cache_storage" where
  "caches_open n st = (if caches_has st n then st else st @ [(n, [])])"

text \<open>The cache of a given name, and the entry that a \<open>GET\<close> request for the URL \<open>u\<close>
  matches in it.\<close>

definition cache_named :: "cache_storage \<Rightarrow> string \<Rightarrow> cache option" where
  "cache_named st n = map_of st n"

definition entry_in :: "cache_storage \<Rightarrow> string \<Rightarrow> string \<Rightarrow> response option" where
  "entry_in st n u =
     (case cache_named st n of None \<Rightarrow> None | Some c \<Rightarrow> map_of c (cache_key u))"

text \<open>
  \<open>cache.put(request, response)\<close> rejects with a TypeError, writing nothing, when the
  request's method is not \<open>GET\<close> or the response's status is 206; otherwise the entry
  that the request matches is replaced, or a new entry added at the end.
\<close>

definition put_accepts :: "request \<Rightarrow> response \<Rightarrow> bool" where
  "put_accepts q r = (method q = ''GET'' \<and> status r \<noteq> 206)"

fun put_entry :: "string \<Rightarrow> response \<Rightarrow> cache \<Rightarrow> cache" where
  "put_entry k v [] = [(k, v)]"
| "put_entry k v (p # ps) = (if fst p = k then (k, v) # ps else p # put_entry k v ps)"

fun cache_put :: "string \<Rightarrow> request \<Rightarrow> response \<Rightarrow> cache_storage \<Rightarrow> cache_storage" where
  "cache_put n q r [] = []"
| "cache_put n q r (p # st) =
     (if fst p = n then (n, put_entry (cache_key (url q)) r (snd p)) # st
      else p # cache_put n q r st)"

text \<open>
  \<open>caches.open(name).then(cache => cache.put(request, response))\<close>, the promise left
  to settle on its own: the cache is created when missing, and the entry is written
  unless \<open>put\<close> rejects.
\<close>

definition open_and_put :: "string \<Rightarrow> request \<Rightarrow> response \<Rightarrow> cache_storage \<Rightarrow> cache_storage" where
  "open_and_put n q r st =
     (let st' = caches_open n st
      in if put_accepts q r then cache_put n q r st' else st')"

subsection \<open>Constants of the two revisions\<close>

definition CACHE_VERSION :: string where
  "CACHE_VERSION = ''ayyappa-songs-v5''"

definition OFFLINE_PAGE :: string where
  "OFFLINE_PAGE = ''/offline/''"

definition CACHE_NAME_v5 :: string where
  "CACHE_NAME_v5 = CACHE_VERSION @ ''-cache''"

definition urlsToCache :: "string list" where
  "urlsToCache =
     [''/'', ''/songs/'', ''/offline/'', ''/static/manifest.json'',
      ''/static/icons/icon-192.png'', ''/static/icons/icon-512.png'']"

definition CACHE_NAME_v7 :: string where
  "CACHE_NAME_v7 = ''ayyappa-songs-v7''"

definition OFFLINE_URL :: string where
  "OFFLINE_URL = ''/offline/''"

definition CACHE_URLS :: "string list" where
  "CACHE_URLS =
     [''/'', ''/offline/'', ''/static/manifest.json'', ''/static/css/tailwind.min.css'',
      ''/static/icons/icon-192.png'', ''/static/icons/icon-512.png'']"

subsection \<open>Activate\<close>

text \<open>
  Both revisions run the same loop over \<open>caches.keys()\<close>: a name that is not
  \<open>CACHE_NAME\<close> is deleted (revision 5 logs each deletion first).  \<open>cleanup\<close> is that
  loop, threading the storage and the console through the deletions.
\<close>

fun cleanup :: "string \<Rightarrow> bool \<Rightarrow> string list \<Rightarrow> cache_storage \<times> console_entry list
    \<Rightarrow> cache_storage \<times> console_entry list" where
  "cleanup cur verbose [] sc = sc"
| "cleanup cur verbose (cacheName # names) (st, con) =
     (if cacheName \<noteq> cur
      then cleanup cur verbose names
             (caches_delete cacheName st,
              if verbose then con @ [Log (''Deleting old cache: '' @ cacheName)] else con)
      else cleanup cur verbose names (st, con))"

definition activate_v5 :: "world \<Rightarrow> world" where
  "activate_v5 w =
     (let con = console w @ [Log ''Cleaning old caches...''];
          (st, con') = cleanup CACHE_NAME_v5 True (caches_keys (caches w)) (caches w, con)
      in w\<lparr>caches := st, console := con'\<rparr>)"

definition activate_v7 :: "world \<Rightarrow> world" where
  "activate_v7 w =
     (let (st, con) = cleanup CACHE_NAME_v7 False (caches_keys (caches w)) (caches w, console w)
      in w\<lparr>caches := st, console := con @ [Log ''Service Worker v7 activated'']\<rparr>)"

subsection \<open>\<open>cache.addAll\<close> and \<open>cache.add\<close>\<close>

text \<open>
  \<open>cache.addAll\<close> on the cache named \<open>n\<close>, for the requests built from its argument:
  every request is fetched; when a fetch rejects, or a response is not ok or has status
  206, or two requests match each other, the promise rejects and nothing is written;
  otherwise every response is stored.  The result is \<open>True\<close> when the promise resolves.
\<close>

fun fetch_all :: "env \<Rightarrow> request list \<Rightarrow> (request \<times> response) list option" where
  "fetch_all e [] = Some []"
| "fetch_all e (q # qs) =
     (case network e q of
        None \<Rightarrow> None
      | Some r \<Rightarrow>
          if ok r \<and> status r \<noteq> 206
          then (case fetch_all e qs of None \<Rightarrow> None | Some ps \<Rightarrow> Some ((q, r) # ps))
          else None)"

fun put_all :: "string \<Rightarrow> (request \<times> response) list \<Rightarrow> cache_storage \<Rightarrow> cache_storage" where
  "put_all n [] st = st"
| "put_all n ((q, r) # ps) st = put_all n ps (cache_put n q r st)"

definition add_all :: "env \<Rightarrow> string \<Rightarrow> request list \<Rightarrow> world \<Rightarrow> bool \<times> world" where
  "add_all e n reqs w =
     (let w1 = w\<lparr>net_log := net_log w @ reqs\<rparr>
      in case fetch_all e reqs of
           None \<Rightarrow> (False, w1)
         | Some ps \<Rightarrow>
             if distinct (map (\<lambda>q. cache_key (url q)) reqs)
             then (True, w1\<lparr>caches := put_all n ps (caches w1)\<rparr>)
             else (False, w1))"

text \<open>
  \<open>cache.add(s)\<close> for a string \<open>s\<close> that arrives at run time is \<open>cache.addAll([s])\<close>:
  when \<open>s\<close> does not parse the promise rejects before anything is fetched.
\<close>

definition cache_add :: "env \<Rightarrow> string \<Rightarrow> string \<Rightarrow> world \<Rightarrow> bool \<times> world" where
  "cache_add e n s w =
     (case new_request e s of None \<Rightarrow> (False, w) | Some q \<Rightarrow> add_all e n [q] w)"

text \<open>The requests for which \<open>addAll\<close> rejects: the fetch rejects, or the response is refused.\<close>

definition add_refuses :: "env \<Rightarrow> request \<Rightarrow> bool" where
  "add_refuses e q =
     (case network e q of None \<Rightarrow> True | Some r \<Rightarrow> \<not> (ok r \<and> status r \<noteq> 206))"

subsection \<open>Install\<close>

text \<open>
  The outcome of an install handler is the fate of the promise given to
  \<open>event.waitUntil\<close>: the install succeeds when it resolves and fails when it rejects.
  \<open>self.skipWaiting()\<close> touches neither the caches nor the console and is left out.
\<close>

datatype install_outcome = Installed | InstallFailed

text \<open>
  Revision 5: \<open>caches.open(CACHE_NAME).then(cache => cache.addAll(urlsToCache))\<close> with a
  \<open>.catch\<close> that logs the error; the \<open>.catch\<close> returns normally, so the promise it
  yields resolves also when \<open>addAll\<close> rejected.
\<close>

definition install_v5 :: "env \<Rightarrow> world \<Rightarrow> install_outcome \<times> world" where
  "install_v5 e w =
     (let w0 = w\<lparr>console := console w @ [Log ''Service Worker: Installing...'']\<rparr>;
          w1 = w0\<lparr>caches := caches_open CACHE_NAME_v5 (caches w0)\<rparr>;
          w2 = w1\<lparr>console := console w1 @ [Log ''Caching core resources'']\<rparr>;
          (added, w3) = add_all e CACHE_NAME_v5 (map (request_of e) urlsToCache) w2
      in if added then (Installed, w3)
         else (Installed, w3\<lparr>console := console w3 @ [Error ''Cache add failed:'']\<rparr>))"

text \<open>
  Revision 7: one task per manifest URL, each with its own \<open>try\<close>/\<open>catch\<close>:
  \<open>fetch(url, {cache: 'reload'})\<close>, then \<open>cache.put\<close> when the response is ok; the
  \<open>catch\<close> (a rejected fetch, or a rejected put) logs a warning.  The tasks write
  different keys, so they are run here in manifest order.
\<close>

definition cache_one :: "env \<Rightarrow> string \<Rightarrow> world \<Rightarrow> world" where
  "cache_one e u w =
     (let q = request_of e u;
          w1 = w\<lparr>net_log := net_log w @ [q]\<rparr>
      in case network e q of
           None \<Rightarrow> w1\<lparr>console := console w1 @ [Warn (''Failed to cache: '' @ u)]\<rparr>
         | Some response \<Rightarrow>
             if ok response
             then (if put_accepts q response
                   then w1\<lparr>caches := cache_put CACHE_NAME_v7 q response (caches w1)\<rparr>
                   else w1\<lparr>console := console w1 @ [Warn (''Failed to cache: '' @ u)]\<rparr>)
             else w1)"

definition install_v7 :: "env \<Rightarrow> world \<Rightarrow> install_outcome \<times> world" where
  "install_v7 e w =
     (let w1 = w\<lparr>caches := caches_open CACHE_NAME_v7 (caches w)\<rparr>;
          w2 = fold (cache_one e) CACHE_URLS w1
      in (Installed, w2\<lparr>console := console w2 @ [Log ''Service Worker v7 installed'']\<rparr>))"

subsection \<open>Fetch\<close>

text \<open>
  The outcome of a fetch handler: \<open>PassThrough\<close> when the handler returns without
  calling \<open>event.respondWith\<close> (the browser handles the request itself), \<open>Respond r\<close>
  when the promise given to \<open>respondWith\<close> resolves with the response \<open>r\<close>, and
  \<open>RespondUndefined\<close> when it resolves with \<open>undefined\<close> (the page then sees a
  network error).  No promise given to \<open>respondWith\<close> rejects: every \<open>fetch\<close> has a
  \<open>.catch\<close>.  A \<open>fetch\<close> that resolves gives a response, so the test \<open>!response\<close>
  of revision 7 is never true and has no counterpart below.
\<close>

datatype fetch_outcome = PassThrough | Respond response | RespondUndefined

definition fetch_v5 :: "env \<Rightarrow> request \<Rightarrow> world \<Rightarrow> fetch_outcome \<times> world" where
  "fetch_v5 e q w =
     (if method q \<noteq> ''GET'' then (PassThrough, w)
      else case caches_match (caches w) q of
        Some cachedResponse \<Rightarrow> (Respond cachedResponse, w)
      | None \<Rightarrow>
          (let w1 = w\<lparr>net_log := net_log w @ [q]\<rparr>
           in case network e q of
                Some networkResponse \<Rightarrow>
                  (Respond networkResponse,
                   if starts_with (url q) (origin e)
                   then w1\<lparr>caches := open_and_put CACHE_NAME_v5 q networkResponse (caches w1)\<rparr>
                   else w1)
              | None \<Rightarrow>
                  (if mode q = ''navigate''
                   then (case caches_match (caches w1) (request_of e OFFLINE_PAGE) of
                           Some r \<Rightarrow> Respond r
                         | None \<Rightarrow> RespondUndefined)
                   else RespondUndefined,
                   w1)))"

text \<open>\<open>new Response('Network error', { status: 408 })\<close>.\<close>

definition network_error_response :: response where
  "network_error_response = \<lparr>status = 408, rtype = ''default'', body = ''Network error''\<rparr>"

definition fetch_v7 :: "env \<Rightarrow> request \<Rightarrow> world \<Rightarrow> fetch_outcome \<times> world" where
  "fetch_v7 e q w =
     (if url_origin (url q) \<noteq> origin e then (PassThrough, w)
      else if mode q = ''navigate''
      then (let w1 = w\<lparr>net_log := net_log w @ [q]\<rparr>
            in case network e q of
                 Some r \<Rightarrow> (Respond r, w1)
               | None \<Rightarrow>
                   (case caches_match (caches w1) (request_of e OFFLINE_URL) of
                      Some r \<Rightarrow> (Respond r, w1)
                    | None \<Rightarrow> (RespondUndefined, w1)))
      else case caches_match (caches w) q of
        Some cachedResponse \<Rightarrow> (Respond cachedResponse, w)
      | None \<Rightarrow>
          (let w1 = w\<lparr>net_log := net_log w @ [q]\<rparr>
           in case network e q of
                Some response \<Rightarrow>
                  if status response \<noteq> 200 \<or> rtype response \<noteq> ''basic''
                  then (Respond response, w1)
                  else (Respond response,
                        w1\<lparr>caches := open_and_put CACHE_NAME_v7 q response (caches w1)\<rparr>)
              | None \<Rightarrow> (Respond network_error_response, w1)))"

subsection \<open>Message\<close>

text \<open>
  \<open>event.data\<close> of a message: \<open>NoData\<close> is a falsy value; \<open>Data t u\<close> is any other
  value, where \<open>t\<close> is its \<open>type\<close> field (\<open>None\<close> when the field is missing or is not a
  string) and \<open>u\<close> its \<open>url\<close> field (\<open>None\<close> when the field is missing, else the string
  that the field's value converts to).  The handler of revision 5 tests the \<open>type\<close> only
  and hands \<open>event.data.url\<close> to \<open>cache.add\<close>, which converts it to a string:
  \<open>undefined\<close> becomes the string \<open>undefined\<close>.
\<close>

datatype message_data = NoData | Data "string option" "string option"

definition usv_string :: "string option \<Rightarrow> string" where
  "usv_string u = (case u of None \<Rightarrow> ''undefined'' | Some s \<Rightarrow> s)"

text \<open>
  Revision 5: \<open>caches.open(CACHE_NAME).then(cache => cache.add(event.data.url))\<close>, with
  a log when \<open>add\<close> resolves and nothing when it rejects.
\<close>

definition message_v5 :: "env \<Rightarrow> message_data \<Rightarrow> world \<Rightarrow> world" where
  "message_v5 e d w =
     (case d of
        NoData \<Rightarrow> w
      | Data t u \<Rightarrow>
          if t = Some ''SAVE_OFFLINE''
          then (let w1 = w\<lparr>caches := caches_open CACHE_NAME_v5 (caches w)\<rparr>;
                    (added, w2) = cache_add e CACHE_NAME_v5 (usv_string u) w1
                in if added
                   then w2\<lparr>console := console w2 @
                                        [Log (''Cached for offline: '' @ usv_string u)]\<rparr>
                   else w2)
          else w)"


subsection \<open>The page script: \<open>saveOffline\<close>\<close>

text \<open>
  \<open>saveOffline(songId, title)\<close> of \<open>app.js\<close>.  \<open>supported\<close> is the test
  \<open>'serviceWorker' in navigator && 'caches' in window\<close>; \<open>controlled\<close> says that
  \<open>navigator.serviceWorker.controller\<close> is not null (on null the \<open>postMessage\<close> call
  throws and the function ends there).  \<open>worker\<close> is the message handler of the worker
  that controls the page.  The page is of the worker's origin and the URL it builds is
  path-absolute, so the page's parser gives what the worker's gives.  The toasts are the
  outcome.
\<close>

datatype save_outcome = ToastSaved string | ToastFailed | ToastUnsupported | Threw

definition OFFLINE_SONGS :: string where
  "OFFLINE_SONGS = ''ayyappa-offline-songs''"

definition song_url :: "string \<Rightarrow> string" where
  "song_url songId = ''/songs/view/'' @ songId @ ''/''"

definition saveOffline ::
  "env \<Rightarrow> (message_data \<Rightarrow> world \<Rightarrow> world) \<Rightarrow> bool \<Rightarrow> bool \<Rightarrow> string \<Rightarrow> string \<Rightarrow> world
     \<Rightarrow> save_outcome \<times> world" where
  "saveOffline e worker supported controlled songId title w =
     (if supported
      then (let u = song_url songId
            in if \<not> controlled then (Threw, w)
               else (let w1 = worker (Data (Some ''SAVE_OFFLINE'') (Some u)) w;
                         w2 = w1\<lparr>caches := caches_open OFFLINE_SONGS (caches w1)\<rparr>;
                         (added, w3) = cache_add e OFFLINE_SONGS u w2
                     in (if added then ToastSaved title else ToastFailed, w3)))
      else (ToastUnsupported, w))"

subsection \<open>Worlds and environments for the examples\<close>

definition empty_world :: world where
  "empty_world = \<lparr>caches = [], net_log = [], console = []\<rparr>"

definition site :: string where
  "site = ''https://songs.example''"

text \<open>The URL that \<open>saveOffline\<close> builds for the song of id 1.\<close>

definition song1 :: string where
  "song1 = ''/songs/view/1/''"

text \<open>
  The worker of the examples is registered at \<open>/static/js/serviceworker.js\<close>, as \<open>app.js\<close>
  does.  Its parser is given on the two strings that the examples hand to it: the URL of
  song 1 and the string \<open>undefined\<close>, which is relative to the script's directory.
\<close>

definition site_location :: string where
  "site_location = site @ ''/static/js/serviceworker.js''"

definition site_parse :: "string \<Rightarrow> string option" where
  "site_parse s =
     (if s = song1 then Some (site @ song1)
      else if s = ''undefined'' then Some (site @ ''/static/js/undefined'')
      else None)"

text \<open>A network that is down, and one that answers every request with the same response.\<close>

definition offline_env :: env where
  "offline_env = \<lparr>location = site_location, parse_url = site_parse, network = (\<lambda>q. None)\<rparr>"

definition answering_env :: "response \<Rightarrow> env" where
  "answering_env r =
     \<lparr>location = site_location, parse_url = site_parse, network = (\<lambda>q. Some r)\<rparr>"

definition page_response :: response where
  "page_response = \<lparr>status = 200, rtype = ''basic'', body = ''<html>song</html>''\<rparr>"

definition not_found_response :: response where
  "not_found_response = \<lparr>status = 404, rtype = ''basic'', body = ''Not Found''\<rparr>"

text \<open>The home page, cached in the generation of revision 7, and two requests for pages.\<close>

definition home_url :: string where
  "home_url = site @ ''/''"

definition cached_world :: world where
  "cached_world =
     \<lparr>caches = [(CACHE_NAME_v7, [(home_url, page_response)])], net_log = [], console = []\<rparr>"

definition home_navigation :: request where
  "home_navigation = \<lparr>method = ''GET'', url = home_url, mode = ''navigate''\<rparr>"

definition home_subresource :: request where
  "home_subresource = \<lparr>method = ''GET'', url = home_url, mode = ''same-origin''\<rparr>"

text \<open>A request for the home page with a fragment: the cache matches it as the one without.\<close>

definition home_top :: request where
  "home_top = \<lparr>method = ''GET'', url = home_url @ ''#top'', mode = ''same-origin''\<rparr>"

text \<open>The request that \<open>confirmDelete\<close> of \<open>app.js\<close> sends, and a request to another site.\<close>

definition delete_post :: request where
  "delete_post = \<lparr>method = ''POST'', url = site @ ''/songs/delete/1/'', mode = ''cors''\<rparr>"

definition cdn_request :: request where
  "cdn_request = \<lparr>method = ''GET'', url = ''https://cdn.example/lib.js'', mode = ''no-cors''\<rparr>"

definition opaque_response :: response where
  "opaque_response = \<lparr>status = 0, rtype = ''opaque'', body = []\<rparr>"

text \<open>A cache store after some releases: two stale generations, the page's own cache, and
  the current generations of the two revisions.\<close>

definition aged_store :: cache_storage where
  "aged_store =
     [(''ayyappa-songs-v3-cache'', []),
      (''ayyappa-songs-v4-cache'', [(home_url, not_found_response)]),
      (CACHE_NAME_v5, [(home_url, page_response)]),
      (OFFLINE_SONGS, [(site @ song1, page_response)]),
      (CACHE_NAME_v7, [(home_url, page_response)])]"

definition aged_world :: world where
  "aged_world = \<lparr>caches = aged_store, net_log = [], console = []\<rparr>"

section \<open>Properties\<close>

subsection \<open>URLs\<close>

lemma starts_with_append: "starts_with (p @ s) p"
  by (induction p) auto

lemma cache_key_no_hash: "CHR ''#'' \<notin> set (cache_key u)"
  by (auto simp: cache_key_def dest: set_takeWhileD)

lemma cache_key_prefix: "\<exists>s. u = cache_key u @ s"
proof
  show "u = cache_key u @ dropWhile (\<lambda>c. c \<noteq> CHR ''#'') u"
    by (simp add: cache_key_def)
qed

lemma url_origin_prefix: "\<exists>s. u = url_origin u @ s"
proof -
  define v where "v = cache_key u"
  define n where "n = length (takeWhile (\<lambda>c. c \<noteq> CHR '':'') v) + 3"
  define P where "P = (\<lambda>c. c \<noteq> CHR ''/'' \<and> c \<noteq> CHR ''?'')"
  obtain s where s: "u = v @ s"
    using cache_key_prefix [of u] by (auto simp: v_def)
  have "v = take n v @ takeWhile P (drop n v) @ dropWhile P (drop n v)"
    by simp
  moreover have "url_origin u = take n v @ takeWhile P (drop n v)"
    by (simp add: url_origin_def Let_def v_def n_def P_def)
  ultimately have "u = url_origin u @ (dropWhile P (drop n v) @ s)"
    using s by simp
  then show ?thesis ..
qed

text \<open>A URL begins with its origin, and an origin has no \<open>#\<close>.\<close>

lemma starts_with_url_origin: "starts_with u (url_origin u)"
proof -
  obtain s where "u = url_origin u @ s"
    using url_origin_prefix by blast
  then show ?thesis
    using starts_with_append [of "url_origin u" s] by simp
qed

lemma url_origin_no_hash: "CHR ''#'' \<notin> set (url_origin u)"
proof -
  have "set (url_origin u) \<subseteq> set (cache_key u)"
    by (auto simp: url_origin_def Let_def dest: in_set_takeD in_set_dropD set_takeWhileD)
  then show ?thesis
    using cache_key_no_hash by blast
qed

lemma cache_key_append: "CHR ''#'' \<notin> set a \<Longrightarrow> cache_key (a @ b) = a @ cache_key b"
  by (auto simp: cache_key_def intro: takeWhile_append2)

lemma cache_key_resolve_url: "cache_key (resolve_url e p) = origin e @ cache_key p"
  by (simp add: resolve_url_def origin_def cache_key_append url_origin_no_hash)

lemma origin_site: "url_origin site_location = site"
  by (simp add: url_origin_def cache_key_def site_location_def site_def)

lemma origin_offline_env: "origin offline_env = site"
  by (simp add: origin_def offline_env_def origin_site)

lemma origin_answering_env: "origin (answering_env r) = site"
  by (simp add: origin_def answering_env_def origin_site)

subsection \<open>The cache store\<close>

lemma caches_has_Cons: "caches_has (p # st) n = (fst p = n \<or> caches_has st n)"
  by (auto simp: caches_has_def caches_keys_def)

lemma caches_has_Nil: "\<not> caches_has [] n"
  by (simp add: caches_has_def caches_keys_def)

lemma caches_has_open: "caches_has (caches_open n st) n"
  by (simp add: caches_open_def caches_has_def caches_keys_def)

lemma caches_keys_put: "caches_keys (cache_put n q r st) = caches_keys st"
  by (induction st) (auto simp: caches_keys_def)

lemma caches_keys_put_all: "caches_keys (put_all n ps st) = caches_keys st"
  by (induction ps arbitrary: st) (auto simp: caches_keys_put)

lemma caches_match_append:
  "caches_match (st @ st') q =
     (case caches_match st q of Some r \<Rightarrow> Some r | None \<Rightarrow> caches_match st' q)"
  by (induction st) (auto split: option.splits)

lemma caches_match_open: "caches_match (caches_open n st) q = caches_match st q"
  by (simp add: caches_open_def caches_match_append cache_match_def split: option.splits)

lemma map_of_put_entry:
  "map_of (put_entry k v c) k' = (if k' = k then Some v else map_of c k')"
  by (induction c) auto

lemma entry_in_absent: "\<not> caches_has st n \<Longrightarrow> entry_in st n u = None"
  by (induction st) (auto simp: caches_has_Cons entry_in_def cache_named_def)

lemma entry_in_open: "entry_in (caches_open n st) n' u = entry_in st n' u"
proof (cases "caches_has st n")
  case True
  then show ?thesis by (simp add: caches_open_def)
next
  case False
  then have "map_of st n = None"
    by (simp add: caches_has_def caches_keys_def map_of_eq_None_iff)
  then show ?thesis using False
    by (auto simp: caches_open_def entry_in_def cache_named_def map_add_def split: option.splits)
qed

lemma entry_in_put:
  "caches_has st n \<Longrightarrow>
   entry_in (cache_put n q r st) n u =
     (if cache_key u = cache_key (url q) then Some r else entry_in st n u)"
  by (induction st)
     (auto simp: caches_has_Cons caches_has_Nil entry_in_def cache_named_def map_of_put_entry)

lemma entry_in_put_other_key:
  "cache_key k \<noteq> cache_key (url q) \<Longrightarrow> entry_in (cache_put n q r st) n' k = entry_in st n' k"
  by (induction st) (auto simp: entry_in_def cache_named_def map_of_put_entry)

lemma caches_match_miss_entry:
  "caches_match st q = None \<Longrightarrow> method q = ''GET'' \<Longrightarrow> entry_in st n (url q) = None"
  by (induction st)
     (auto simp: entry_in_def cache_named_def cache_match_def split: option.splits if_splits)

lemma caches_match_put:
  "caches_match st q = None \<Longrightarrow> method q = ''GET'' \<Longrightarrow> caches_has st n \<Longrightarrow>
   caches_match (cache_put n q r st) q = Some r"
  by (induction st)
     (auto simp: caches_has_Cons caches_has_Nil cache_match_def map_of_put_entry
           split: option.splits if_splits)

lemma open_and_put_match:
  assumes "caches_match st q = None" and "method q = ''GET''"
  shows "caches_match (open_and_put n q r st) q = (if status r \<noteq> 206 then Some r else None)"
  using assms
  by (simp add: open_and_put_def Let_def put_accepts_def caches_match_open caches_match_put
      caches_has_open)

lemma open_and_put_entry:
  assumes "caches_match st q = None" and "method q = ''GET''"
  shows "entry_in (open_and_put n q r st) n (url q) = (if status r \<noteq> 206 then Some r else None)"
  using assms
  by (simp add: open_and_put_def Let_def put_accepts_def entry_in_open entry_in_put
      caches_has_open caches_match_miss_entry)

text \<open>A request that differs from a cached one in its fragment only is a hit.\<close>

lemma fragment_hit:
  "caches_match (caches cached_world) home_top = Some page_response"
  by (simp add: cached_world_def home_top_def home_url_def site_def cache_match_def cache_key_def)

subsection \<open>Activate\<close>

lemma cleanup_filter:
  "fst (cleanup cur v names (st, con)) =
     filter (\<lambda>p. fst p = cur \<or> fst p \<notin> set names) st"
proof (induction names arbitrary: st con)
  case Nil
  then show ?case by simp
next
  case (Cons n names)
  have "filter (\<lambda>p. fst p = cur \<or> fst p \<notin> set names) (caches_delete n st) =
        filter (\<lambda>p. fst p = cur \<or> fst p \<notin> set (n # names)) st" if "n \<noteq> cur"
    using that by (induction st) (auto simp: caches_delete_def)
  moreover have "filter (\<lambda>p. fst p = cur \<or> fst p \<notin> set names) st =
        filter (\<lambda>p. fst p = cur \<or> fst p \<notin> set (cur # names)) st"
    by (induction st) auto
  ultimately show ?case using Cons.IH by simp
qed

lemma cleanup_all_keys:
  "fst (cleanup cur v (caches_keys st) (st, con)) = filter (\<lambda>p. fst p = cur) st"
proof -
  have "filter (\<lambda>p. fst p = cur \<or> fst p \<notin> set (caches_keys st)) st =
        filter (\<lambda>p. fst p = cur) st"
    by (rule filter_cong) (auto simp: caches_keys_def)
  then show ?thesis by (simp add: cleanup_filter)
qed

lemma keys_filter_current:
  "set (caches_keys (filter (\<lambda>p. fst p = cur) st)) =
     (if caches_has st cur then {cur} else {})"
  by (force simp: caches_keys_def caches_has_def)

lemma caches_has_filter_current:
  "caches_has (filter (\<lambda>p. fst p = cur) st) n = (n = cur \<and> caches_has st n)"
  by (induction st) (auto simp: caches_has_Cons caches_has_Nil)

lemma cache_named_filter_current:
  "cache_named (filter (\<lambda>p. fst p = cur) st) cur = cache_named st cur"
  by (induction st) (auto simp: cache_named_def)

lemma activate_v5_filter:
  "caches (activate_v5 w) = filter (\<lambda>p. fst p = CACHE_NAME_v5) (caches w)"
  by (simp add: activate_v5_def Let_def cleanup_all_keys split: prod.splits)
     (metis cleanup_all_keys fst_conv)

lemma activate_v7_filter:
  "caches (activate_v7 w) = filter (\<lambda>p. fst p = CACHE_NAME_v7) (caches w)"
  by (simp add: activate_v7_def Let_def split: prod.splits)
     (metis cleanup_all_keys fst_conv)

text \<open>Both install handlers open the current generation before anything else.\<close>

lemma add_all_keys: "caches_keys (caches (snd (add_all e n reqs w))) = caches_keys (caches w)"
  by (simp add: add_all_def Let_def caches_keys_put_all split: option.splits)

lemma install_v5_has_current: "caches_has (caches (snd (install_v5 e w))) CACHE_NAME_v5"
proof -
  let ?w2 = "w\<lparr>console := console w @ [Log ''Service Worker: Installing...''],
               caches := caches_open CACHE_NAME_v5 (caches w),
               console := console w @ [Log ''Service Worker: Installing...'',
                                       Log ''Caching core resources'']\<rparr>"
  have "caches_keys (caches (snd (install_v5 e w))) =
        caches_keys (caches (snd (add_all e CACHE_NAME_v5 (map (request_of e) urlsToCache) ?w2)))"
    by (simp add: install_v5_def Let_def split: prod.splits)
  then show ?thesis
    using caches_has_open [of CACHE_NAME_v5 "caches w"]
    by (simp add: caches_has_def add_all_keys)
qed

lemma cache_one_keys: "caches_keys (caches (cache_one e u w)) = caches_keys (caches w)"
  by (simp add: cache_one_def Let_def caches_keys_put split: option.splits)

lemma fold_cache_one_keys:
  "caches_keys (caches (fold (cache_one e) us w)) = caches_keys (caches w)"
  by (induction us arbitrary: w) (simp_all add: cache_one_keys)

lemma install_v7_has_current: "caches_has (caches (snd (install_v7 e w))) CACHE_NAME_v7"
  using caches_has_open [of CACHE_NAME_v7 "caches w"]
  by (simp add: install_v7_def Let_def caches_has_def fold_cache_one_keys)

text \<open>
  C1: for every prior cache store that holds the current generation beside any number of
  stale ones, and so for every store that the install of the revision leaves (both install
  handlers open the current generation), after the activate handler of either revision the
  set of cache names is exactly the singleton of the revision's current name: every cache
  of another name has been deleted, and the current one is untouched.
\<close>

theorem activate_keeps_only_current:
  "(caches_has (caches w) CACHE_NAME_v5 \<longrightarrow>
      set (caches_keys (caches (activate_v5 w))) = {CACHE_NAME_v5}) \<and>
   (\<forall>n. n \<noteq> CACHE_NAME_v5 \<longrightarrow> \<not> caches_has (caches (activate_v5 w)) n) \<and>
   cache_named (caches (activate_v5 w)) CACHE_NAME_v5 = cache_named (caches w) CACHE_NAME_v5 \<and>
   set (caches_keys (caches (activate_v5 (snd (install_v5 e w))))) = {CACHE_NAME_v5} \<and>
   (caches_has (caches w) CACHE_NAME_v7 \<longrightarrow>
      set (caches_keys (caches (activate_v7 w))) = {CACHE_NAME_v7}) \<and>
   (\<forall>n. n \<noteq> CACHE_NAME_v7 \<longrightarrow> \<not> caches_has (caches (activate_v7 w)) n) \<and>
   cache_named (caches (activate_v7 w)) CACHE_NAME_v7 = cache_named (caches w) CACHE_NAME_v7 \<and>
   set (caches_keys (caches (activate_v7 (snd (install_v7 e w))))) = {CACHE_NAME_v7}"
  by (simp add: activate_v5_filter activate_v7_filter keys_filter_current
      caches_has_filter_current cache_named_filter_current
      install_v5_has_current install_v7_has_current)

theorem activate_keeps_only_current_witness:
  "caches_has (caches aged_world) CACHE_NAME_v5 \<and>
   caches_has (caches aged_world) CACHE_NAME_v7 \<and>
   length (caches_keys (caches aged_world)) = 5 \<and>
   set (caches_keys (caches (activate_v5 aged_world))) = {CACHE_NAME_v5} \<and>
   cache_named (caches (activate_v5 aged_world)) CACHE_NAME_v5 = Some [(home_url, page_response)] \<and>
   set (caches_keys (caches (activate_v7 aged_world))) = {CACHE_NAME_v7} \<and>
   cache_named (caches (activate_v7 aged_world)) CACHE_NAME_v7 = Some [(home_url, page_response)]"
proof -
  have h5: "caches_has (caches aged_world) CACHE_NAME_v5"
    by (simp add: aged_world_def aged_store_def caches_has_def caches_keys_def)
  have h7: "caches_has (caches aged_world) CACHE_NAME_v7"
    by (simp add: aged_world_def aged_store_def caches_has_def caches_keys_def)
  have l: "length (caches_keys (caches aged_world)) = 5"
    by (simp add: aged_world_def aged_store_def caches_keys_def)
  have c5: "cache_named (caches aged_world) CACHE_NAME_v5 = Some [(home_url, page_response)]"
    by (simp add: aged_world_def aged_store_def cache_named_def CACHE_NAME_v5_def
        CACHE_VERSION_def)
  have c7: "cache_named (caches aged_world) CACHE_NAME_v7 = Some [(home_url, page_response)]"
    by (simp add: aged_world_def aged_store_def cache_named_def CACHE_NAME_v5_def
        CACHE_VERSION_def CACHE_NAME_v7_def OFFLINE_SONGS_def)
  from activate_keeps_only_current [of aged_world] h5 h7 l c5 c7 show ?thesis by simp
qed

subsection \<open>Fetch: a cached entry\<close>

text \<open>
  C2 (as stated, refuted): every GET request to a same-origin resource with a cache entry
  would be answered from the cache with no network fetch, in both revisions.  Revision 7
  sends a navigation to the network first: the cached home page is not returned, the
  network's answer is, and one fetch is recorded.
\<close>

theorem cached_navigation_v7_counterexample:
  "method home_navigation = ''GET'' \<and>
   url_origin (url home_navigation) = origin (answering_env not_found_response) \<and>
   caches_match (caches cached_world) home_navigation = Some page_response \<and>
   fetch_v7 (answering_env not_found_response) home_navigation cached_world =
     (Respond not_found_response, cached_world\<lparr>net_log := [home_navigation]\<rparr>)"
proof -
  have o: "url_origin (url home_navigation) = site"
    by (simp add: home_navigation_def home_url_def site_def url_origin_def cache_key_def)
  have c: "caches_match (caches cached_world) home_navigation = Some page_response"
    by (simp add: home_navigation_def cached_world_def home_url_def site_def cache_match_def
        cache_key_def)
  have n: "network (answering_env not_found_response) home_navigation = Some not_found_response"
    by (simp add: answering_env_def)
  have f: "fetch_v7 (answering_env not_found_response) home_navigation cached_world =
     (Respond not_found_response, cached_world\<lparr>net_log := [home_navigation]\<rparr>)"
    by (simp add: fetch_v7_def o origin_answering_env n Let_def)
       (simp add: home_navigation_def cached_world_def)
  from o c f show ?thesis
    by (simp add: origin_answering_env) (simp add: home_navigation_def)
qed

text \<open>
  C2 (amended): for every GET request to a same-origin resource for which a cache entry
  exists, the interceptor of revision 5 returns that cached entry and leaves the world as
  it was (no network fetch, no cache write); the interceptor of revision 7 does so when
  the request is not a navigation.
\<close>

theorem cached_entry_served:
  assumes "method q = ''GET''"
    and "url_origin (url q) = origin e"
    and "caches_match (caches w) q = Some r"
  shows "fetch_v5 e q w = (Respond r, w) \<and>
         (mode q \<noteq> ''navigate'' \<longrightarrow> fetch_v7 e q w = (Respond r, w))"
  using assms by (simp add: fetch_v5_def fetch_v7_def)

theorem cached_entry_served_witness:
  "method home_subresource = ''GET'' \<and>
   url_origin (url home_subresource) = origin offline_env \<and>
   caches_match (caches cached_world) home_subresource = Some page_response \<and>
   mode home_subresource \<noteq> ''navigate'' \<and>
   fetch_v5 offline_env home_subresource cached_world = (Respond page_response, cached_world) \<and>
   fetch_v7 offline_env home_subresource cached_world = (Respond page_response, cached_world)"
proof -
  have m: "method home_subresource = ''GET''"
    by (simp add: home_subresource_def)
  have o: "url_origin (url home_subresource) = origin offline_env"
    by (simp add: origin_offline_env)
       (simp add: home_subresource_def home_url_def site_def url_origin_def cache_key_def)
  have c: "caches_match (caches cached_world) home_subresource = Some page_response"
    by (simp add: home_subresource_def cached_world_def home_url_def site_def cache_match_def
        cache_key_def)
  have n: "mode home_subresource \<noteq> ''navigate''"
    by (simp add: home_subresource_def)
  from cached_entry_served [OF m o c] m o c n show ?thesis by simp
qed

subsection \<open>Fetch: the network fails and nothing is cached\<close>

lemma fetch_v7_network_failure:
  assumes "url_origin (url q) = origin e"
    and "mode q \<noteq> ''navigate''"
    and "caches_match (caches w) q = None"
    and "network e q = None"
  shows "fst (fetch_v7 e q w) = Respond network_error_response"
    and "status network_error_response = 408"
  using assms by (simp_all add: fetch_v7_def Let_def network_error_response_def)

lemma navigation_offline_fallback:
  assumes "method q = ''GET''"
    and "url_origin (url q) = origin e"
    and "mode q = ''navigate''"
    and "caches_match (caches w) q = None"
    and "network e q = None"
    and "caches_match (caches w) (request_of e ''/offline/'') = Some page"
  shows "fst (fetch_v5 e q w) = Respond page"
    and "fst (fetch_v7 e q w) = Respond page"
  using assms by (simp_all add: fetch_v5_def fetch_v7_def Let_def OFFLINE_PAGE_def OFFLINE_URL_def)

lemma home_subresource_same_origin: "url_origin (url home_subresource) = site"
  by (simp add: home_subresource_def home_url_def site_def url_origin_def cache_key_def)

text \<open>
  C3 (the code departs from the claim): a request that is no navigation, with no cache entry
  and the network down.  Revision 7 answers with the synthetic response of status 408;
  the \<open>.catch\<close> of revision 5 has a branch for navigations only and returns nothing
  otherwise, so its \<open>respondWith\<close> promise resolves with \<open>undefined\<close>.
\<close>

theorem fetch_v5_subresource_offline_undefined:
  "mode home_subresource \<noteq> ''navigate'' \<and>
   caches_match (caches empty_world) home_subresource = None \<and>
   network offline_env home_subresource = None \<and>
   fetch_v5 offline_env home_subresource empty_world =
     (RespondUndefined, empty_world\<lparr>net_log := [home_subresource]\<rparr>) \<and>
   fetch_v7 offline_env home_subresource empty_world =
     (Respond network_error_response, empty_world\<lparr>net_log := [home_subresource]\<rparr>)"
proof -
  have n: "network offline_env home_subresource = None"
    by (simp add: offline_env_def)
  have c: "caches_match (caches empty_world) home_subresource = None"
    by (simp add: empty_world_def)
  have m: "method home_subresource = ''GET''" "mode home_subresource \<noteq> ''navigate''"
    by (simp_all add: home_subresource_def)
  have "fetch_v5 offline_env home_subresource empty_world =
     (RespondUndefined, empty_world\<lparr>net_log := [home_subresource]\<rparr>)"
    by (simp add: fetch_v5_def n c m Let_def) (simp add: empty_world_def)
  moreover have "fetch_v7 offline_env home_subresource empty_world =
     (Respond network_error_response, empty_world\<lparr>net_log := [home_subresource]\<rparr>)"
    by (simp add: fetch_v7_def n c m Let_def home_subresource_same_origin origin_offline_env)
       (simp add: empty_world_def)
  ultimately show ?thesis using n c m by simp
qed

theorem fetch_v5_subresource_offline_undefined_witness:
  "fst (fetch_v5 offline_env home_subresource empty_world) = RespondUndefined \<and>
   fst (fetch_v7 offline_env home_subresource empty_world) = Respond network_error_response \<and>
   status network_error_response = 408"
  using fetch_v5_subresource_offline_undefined by (simp add: network_error_response_def)

subsection \<open>Fetch: requests that are not GET\<close>

lemma fetch_v5_non_get:
  "method q \<noteq> ''GET'' \<Longrightarrow> fetch_v5 e q w = (PassThrough, w)"
  by (simp add: fetch_v5_def)

text \<open>
  C5 (the code departs from the claim): revision 5 returns at once on a method other than
  GET; revision 7 has no such guard.  The same-origin POST that the page sends to delete a
  song is intercepted by revision 7, and with the network down it is answered with the
  synthetic response.
\<close>

theorem fetch_v7_post_intercepted:
  "method delete_post \<noteq> ''GET'' \<and>
   fetch_v5 offline_env delete_post empty_world = (PassThrough, empty_world) \<and>
   fetch_v7 offline_env delete_post empty_world =
     (Respond network_error_response, empty_world\<lparr>net_log := [delete_post]\<rparr>)"
proof -
  have o: "url_origin (url delete_post) = site"
    by (simp add: delete_post_def site_def url_origin_def cache_key_def)
  have n: "network offline_env delete_post = None"
    by (simp add: offline_env_def)
  have c: "caches_match (caches empty_world) delete_post = None"
    by (simp add: empty_world_def)
  have m: "method delete_post \<noteq> ''GET''" "mode delete_post \<noteq> ''navigate''"
    by (simp_all add: delete_post_def)
  have "fetch_v7 offline_env delete_post empty_world =
     (Respond network_error_response, empty_world\<lparr>net_log := [delete_post]\<rparr>)"
    by (simp add: fetch_v7_def n c m Let_def o origin_offline_env) (simp add: empty_world_def)
  then show ?thesis using m by (simp add: fetch_v5_def)
qed

theorem fetch_v7_post_intercepted_witness:
  "fst (fetch_v5 offline_env delete_post empty_world) = PassThrough \<and>
   fst (fetch_v7 offline_env delete_post empty_world) = Respond network_error_response"
  using fetch_v7_post_intercepted by simp

subsection \<open>Fetch: caching the network's response\<close>

text \<open>
  C4 (as stated, refuted): a fetched response would be stored only when it is a "basic"
  response of status 200.  Revision 5 has no test of the response: a 404 answer to a
  same-origin request for the home page is stored in its generation.
\<close>

theorem fetch_v5_caches_not_found_counterexample:
  "method home_subresource = ''GET'' \<and>
   url_origin (url home_subresource) = origin (answering_env not_found_response) \<and>
   caches_match (caches empty_world) home_subresource = None \<and>
   network (answering_env not_found_response) home_subresource = Some not_found_response \<and>
   status not_found_response \<noteq> 200 \<and>
   fetch_v5 (answering_env not_found_response) home_subresource empty_world =
     (Respond not_found_response,
      \<lparr>caches = [(CACHE_NAME_v5, [(home_url, not_found_response)])],
       net_log = [home_subresource], console = []\<rparr>)"
proof -
  have m: "method home_subresource = ''GET''"
    by (simp add: home_subresource_def)
  have c: "caches_match (caches empty_world) home_subresource = None"
    by (simp add: empty_world_def)
  have n: "network (answering_env not_found_response) home_subresource = Some not_found_response"
    by (simp add: answering_env_def)
  have p: "starts_with (url home_subresource) site"
    by (simp add: home_subresource_def home_url_def site_def)
  have k: "cache_key (url home_subresource) = home_url"
    by (simp add: home_subresource_def home_url_def site_def cache_key_def)
  have s: "status not_found_response \<noteq> 200" "status not_found_response \<noteq> 206"
    by (simp_all add: not_found_response_def)
  have "fetch_v5 (answering_env not_found_response) home_subresource empty_world =
     (Respond not_found_response,
      \<lparr>caches = [(CACHE_NAME_v5, [(home_url, not_found_response)])],
       net_log = [home_subresource], console = []\<rparr>)"
    by (simp add: fetch_v5_def m c n p origin_answering_env Let_def)
       (simp add: empty_world_def open_and_put_def caches_open_def caches_has_Nil
          put_accepts_def m s k)
  then show ?thesis
    using m c n s by (simp add: home_subresource_same_origin origin_answering_env)
qed

text \<open>
  C4 (amended): for every GET request that misses the cache and whose network fetch
  succeeds, each revision returns the network's response to the caller.  Revision 7, on a
  same-origin request, stores it in its current generation exactly when the request is not
  a navigation and the response has status 200 and type "basic".  Revision 5 has no test
  of the response: on a same-origin request it stores the response in its current
  generation whatever its type and status (but for status 206, which the cache refuses),
  and it stores nothing when the request's URL does not begin with the worker's origin
  string.  A response that is not stored is in no cache afterwards.
\<close>

theorem network_response_caching:
  assumes "method q = ''GET''"
    and "caches_match (caches w) q = None"
    and "network e q = Some r"
  shows "fst (fetch_v5 e q w) = Respond r \<and>
         (url_origin (url q) = origin e \<longrightarrow>
            caches_match (caches (snd (fetch_v5 e q w))) q =
              (if status r \<noteq> 206 then Some r else None) \<and>
            entry_in (caches (snd (fetch_v5 e q w))) CACHE_NAME_v5 (url q) =
              (if status r \<noteq> 206 then Some r else None)) \<and>
         (\<not> starts_with (url q) (origin e) \<longrightarrow>
            caches (snd (fetch_v5 e q w)) = caches w) \<and>
         (url_origin (url q) = origin e \<longrightarrow>
            fst (fetch_v7 e q w) = Respond r \<and>
            caches_match (caches (snd (fetch_v7 e q w))) q =
              (if mode q \<noteq> ''navigate'' \<and> status r = 200 \<and> rtype r = ''basic''
               then Some r else None) \<and>
            entry_in (caches (snd (fetch_v7 e q w))) CACHE_NAME_v7 (url q) =
              (if mode q \<noteq> ''navigate'' \<and> status r = 200 \<and> rtype r = ''basic''
               then Some r else None))"
proof -
  have miss: "entry_in (caches w) n (url q) = None" for n
    using assms(1,2) by (rule caches_match_miss_entry[rotated])
  have local: "starts_with (url q) (origin e)" if "url_origin (url q) = origin e"
    using starts_with_url_origin [of "url q"] that by simp
  have v5: "fetch_v5 e q w =
      (Respond r,
       if starts_with (url q) (origin e)
       then w\<lparr>net_log := net_log w @ [q],
              caches := open_and_put CACHE_NAME_v5 q r (caches w)\<rparr>
       else w\<lparr>net_log := net_log w @ [q]\<rparr>)"
    using assms by (simp add: fetch_v5_def Let_def)
  have v7: "fetch_v7 e q w =
      (Respond r,
       if mode q \<noteq> ''navigate'' \<and> status r = 200 \<and> rtype r = ''basic''
       then w\<lparr>net_log := net_log w @ [q],
              caches := open_and_put CACHE_NAME_v7 q r (caches w)\<rparr>
       else w\<lparr>net_log := net_log w @ [q]\<rparr>)" if "url_origin (url q) = origin e"
    using assms that by (simp add: fetch_v7_def Let_def)
  show ?thesis
    using assms(1,2) miss local
    by (auto simp: v5 v7 open_and_put_match open_and_put_entry)
qed

theorem network_response_caching_witness:
  "method home_subresource = ''GET'' \<and>
   caches_match (caches empty_world) home_subresource = None \<and>
   network (answering_env not_found_response) home_subresource = Some not_found_response \<and>
   url_origin (url home_subresource) = origin (answering_env not_found_response) \<and>
   \<not> starts_with (url cdn_request) (origin (answering_env opaque_response)) \<and>
   fst (fetch_v5 (answering_env not_found_response) home_subresource empty_world) =
     Respond not_found_response \<and>
   entry_in (caches (snd (fetch_v5 (answering_env not_found_response) home_subresource
       empty_world))) CACHE_NAME_v5 home_url = Some not_found_response \<and>
   caches (snd (fetch_v5 (answering_env opaque_response) cdn_request empty_world)) =
     caches empty_world \<and>
   fst (fetch_v7 (answering_env not_found_response) home_subresource empty_world) =
     Respond not_found_response \<and>
   entry_in (caches (snd (fetch_v7 (answering_env not_found_response) home_subresource
       empty_world))) CACHE_NAME_v7 home_url = None"
proof -
  have m: "method home_subresource = ''GET''"
    by (simp add: home_subresource_def)
  have c: "caches_match (caches empty_world) q = None" for q
    by (simp add: empty_world_def)
  have n: "network (answering_env r) q = Some r" for r q
    by (simp add: answering_env_def)
  have o: "url_origin (url home_subresource) = origin (answering_env not_found_response)"
    by (simp add: home_subresource_same_origin origin_answering_env)
  have m': "method cdn_request = ''GET''"
    by (simp add: cdn_request_def)
  have p: "\<not> starts_with (url cdn_request) (origin (answering_env opaque_response))"
    by (simp add: origin_answering_env) (simp add: cdn_request_def site_def)
  have u: "url home_subresource = home_url" "mode home_subresource \<noteq> ''navigate''"
    "status not_found_response \<noteq> 200" "status not_found_response \<noteq> 206"
    by (simp_all add: home_subresource_def not_found_response_def)
  from network_response_caching [OF m c n] network_response_caching [OF m' c n]
    m c n o p u show ?thesis by simp
qed

subsection \<open>Fetch: requests to another origin\<close>

lemma fetch_v5_caches:
  "caches (snd (fetch_v5 e q w)) =
     (if method q = ''GET'' \<and> caches_match (caches w) q = None \<and> starts_with (url q) (origin e)
      then (case network e q of None \<Rightarrow> caches w
            | Some r \<Rightarrow> open_and_put CACHE_NAME_v5 q r (caches w))
      else caches w)"
  by (simp add: fetch_v5_def Let_def split: option.splits)

text \<open>
  The string test of revision 5 is not the origin test of revision 7: a URL on another
  port of the same host is of another origin and still begins with the origin string.
\<close>

lemma origin_prefix_example:
  "url_origin ''https://songs.example:8443/app.js'' \<noteq> site \<and>
   starts_with ''https://songs.example:8443/app.js'' site"
  by (simp add: url_origin_def cache_key_def site_def)

text \<open>
  C6 (as stated, refuted): a request to another origin would never be intercepted.
  Revision 5 answers every GET request through \<open>respondWith\<close>, whatever its origin: the
  request to the CDN is fetched by the handler and the handler's promise gives the response.
\<close>

theorem cross_origin_intercepted_v5_counterexample:
  "url_origin (url cdn_request) \<noteq> origin (answering_env opaque_response) \<and>
   fetch_v5 (answering_env opaque_response) cdn_request empty_world =
     (Respond opaque_response, empty_world\<lparr>net_log := [cdn_request]\<rparr>)"
proof -
  have o: "url_origin (url cdn_request) \<noteq> site"
    by (simp add: cdn_request_def site_def url_origin_def cache_key_def)
  have p: "\<not> starts_with (url cdn_request) site"
    by (simp add: cdn_request_def site_def)
  have m: "method cdn_request = ''GET''"
    by (simp add: cdn_request_def)
  have n: "network (answering_env opaque_response) cdn_request = Some opaque_response"
    by (simp add: answering_env_def)
  have c: "caches_match (caches empty_world) cdn_request = None"
    by (simp add: empty_world_def)
  have "fetch_v5 (answering_env opaque_response) cdn_request empty_world =
     (Respond opaque_response, empty_world\<lparr>net_log := [cdn_request]\<rparr>)"
    by (simp add: fetch_v5_def m p n c origin_answering_env Let_def) (simp add: empty_world_def)
  then show ?thesis using o by (simp add: origin_answering_env)
qed

text \<open>
  C6 (amended): for every request whose origin differs from the worker's, the fetch handler
  of revision 7 does not intercept it and leaves the world as it was.  The fetch handler of
  revision 5 does intercept it when it is a GET request, and stores its response in no
  cache generation when the request's URL does not begin with the worker's origin string.
\<close>

theorem cross_origin_requests:
  assumes "url_origin (url q) \<noteq> origin e"
  shows "fetch_v7 e q w = (PassThrough, w) \<and>
         (method q = ''GET'' \<longrightarrow> fst (fetch_v5 e q w) \<noteq> PassThrough) \<and>
         (\<not> starts_with (url q) (origin e) \<longrightarrow> caches (snd (fetch_v5 e q w)) = caches w)"
  using assms
  by (auto simp: fetch_v7_def fetch_v5_caches)
     (auto simp: fetch_v5_def Let_def split: option.splits if_splits)

theorem cross_origin_requests_witness:
  "url_origin (url cdn_request) \<noteq> origin (answering_env opaque_response) \<and>
   method cdn_request = ''GET'' \<and>
   \<not> starts_with (url cdn_request) (origin (answering_env opaque_response)) \<and>
   fetch_v7 (answering_env opaque_response) cdn_request empty_world = (PassThrough, empty_world) \<and>
   fst (fetch_v5 (answering_env opaque_response) cdn_request empty_world) \<noteq> PassThrough \<and>
   caches (snd (fetch_v5 (answering_env opaque_response) cdn_request empty_world)) =
     caches empty_world"
proof -
  have o: "url_origin (url cdn_request) \<noteq> origin (answering_env opaque_response)"
    by (simp add: origin_answering_env)
       (simp add: cdn_request_def site_def url_origin_def cache_key_def)
  have m: "method cdn_request = ''GET''"
    by (simp add: cdn_request_def)
  have p: "\<not> starts_with (url cdn_request) (origin (answering_env opaque_response))"
    by (simp add: origin_answering_env) (simp add: cdn_request_def site_def)
  from cross_origin_requests [OF o, of empty_world] o m p show ?thesis by simp
qed

subsection \<open>Message\<close>

lemma add_all_single:
  "add_all e n [q] w =
     (case network e q of
        None \<Rightarrow> (False, w\<lparr>net_log := net_log w @ [q]\<rparr>)
      | Some r \<Rightarrow>
          if ok r \<and> status r \<noteq> 206
          then (True, w\<lparr>net_log := net_log w @ [q], caches := cache_put n q r (caches w)\<rparr>)
          else (False, w\<lparr>net_log := net_log w @ [q]\<rparr>))"
  by (simp add: add_all_def Let_def split: option.splits)

lemma cache_add_parsed:
  "parse_url e s = Some a \<Longrightarrow> cache_add e n s w = add_all e n [get_request a] w"
  by (simp add: cache_add_def new_request_def)






subsection \<open>Install, revision 5\<close>

lemma fetch_all_refused:
  "q \<in> set qs \<Longrightarrow> add_refuses e q \<Longrightarrow> fetch_all e qs = None"
  by (induction qs) (auto simp: add_refuses_def split: option.splits)

lemma add_all_refused:
  assumes "q \<in> set reqs" and "add_refuses e q"
  shows "add_all e n reqs w = (False, w\<lparr>net_log := net_log w @ reqs\<rparr>)"
  using fetch_all_refused [OF assms] by (simp add: add_all_def Let_def)

lemma install_v5_always_installed: "fst (install_v5 e w) = Installed"
  by (simp add: install_v5_def Let_def split: prod.splits)

text \<open>
  C8 (as stated, refuted): when the bulk \<open>addAll\<close> rejects, the promise given to
  \<open>waitUntil\<close> would reject and the install fail.  With the network down \<open>addAll\<close>
  rejects, the \<open>.catch\<close> logs it, and the install does not fail; the generation is
  created and empty.
\<close>

theorem install_v5_offline_counterexample:
  "fst (add_all offline_env CACHE_NAME_v5 (map (request_of offline_env) urlsToCache)
          empty_world) = False \<and>
   fst (install_v5 offline_env empty_world) \<noteq> InstallFailed \<and>
   caches (snd (install_v5 offline_env empty_world)) = [(CACHE_NAME_v5, [])]"
proof -
  have r: "add_refuses offline_env q" for q
    by (simp add: add_refuses_def offline_env_def)
  have i: "request_of offline_env ''/'' \<in> set (map (request_of offline_env) urlsToCache)"
    by (simp add: urlsToCache_def)
  show ?thesis
    by (simp add: install_v5_def Let_def add_all_refused [OF i r])
       (simp add: empty_world_def caches_open_def caches_has_Nil)
qed

text \<open>
  C8 (amended): in revision 5, when the bulk \<open>addAll\<close> rejects because a manifest entry
  fails to fetch (or its response is refused), no manifest entry is written: the cache
  store is as before, but for the current generation having been opened.  The rejection is
  caught and logged as an error, so the promise given to \<open>waitUntil\<close> resolves and the
  install is reported successful.
\<close>

theorem install_v5_swallows_rejection:
  assumes "u \<in> set urlsToCache"
    and "add_refuses e (request_of e u)"
  shows "fst (install_v5 e w) = Installed \<and>
         caches (snd (install_v5 e w)) = caches_open CACHE_NAME_v5 (caches w) \<and>
         console (snd (install_v5 e w)) =
           console w @ [Log ''Service Worker: Installing...'', Log ''Caching core resources'',
                        Error ''Cache add failed:'']"
proof -
  have "request_of e u \<in> set (map (request_of e) urlsToCache)"
    using assms(1) by simp
  from add_all_refused [OF this assms(2)] show ?thesis
    by (simp add: install_v5_def Let_def)
qed

theorem install_v5_swallows_rejection_witness:
  "''/offline/'' \<in> set urlsToCache \<and>
   add_refuses offline_env (request_of offline_env ''/offline/'') \<and>
   fst (install_v5 offline_env empty_world) = Installed \<and>
   caches (snd (install_v5 offline_env empty_world)) = [(CACHE_NAME_v5, [])]"
proof -
  have a: "''/offline/'' \<in> set urlsToCache"
    by (simp add: urlsToCache_def)
  have b: "add_refuses offline_env (request_of offline_env ''/offline/'')"
    by (simp add: add_refuses_def offline_env_def)
  from install_v5_swallows_rejection [OF a b, of empty_world] a b show ?thesis
    by (simp add: empty_world_def caches_open_def caches_has_def caches_keys_def)
qed

subsection \<open>The page's own cache and the activation of revision 5\<close>

lemma offline_songs_not_current: "OFFLINE_SONGS \<noteq> CACHE_NAME_v5"
  by (simp add: OFFLINE_SONGS_def CACHE_NAME_v5_def CACHE_VERSION_def)

lemma saveOffline_saved:
  assumes "parse_url e (song_url songId) = Some a"
    and "network e (get_request a) = Some r" and "ok r" and "status r \<noteq> 206"
  shows "saveOffline e worker True True songId title w =
     (ToastSaved title,
      (worker (Data (Some ''SAVE_OFFLINE'') (Some (song_url songId))) w)
        \<lparr>net_log := net_log (worker (Data (Some ''SAVE_OFFLINE'') (Some (song_url songId))) w)
                     @ [get_request a],
         caches := cache_put OFFLINE_SONGS (get_request a) r
                     (caches_open OFFLINE_SONGS
                        (caches (worker (Data (Some ''SAVE_OFFLINE'')
                           (Some (song_url songId))) w)))\<rparr>)"
  using assms(2-4)
  by (simp add: saveOffline_def Let_def cache_add_parsed [OF assms(1)] add_all_single)

text \<open>
  C9: the cleanup of revision 5 deletes every cache whose name is not
  \<open>ayyappa-songs-v5-cache\<close>, and the page's cache \<open>ayyappa-offline-songs\<close> is one of
  them.  When \<open>saveOffline\<close> has stored a song there (the page is controlled by a worker,
  whichever, and the song's fetch gave an ok response), the song is in that cache, and
  after the next activation of revision 5 the cache is gone and holds no entry at all.
\<close>

theorem offline_songs_destroyed:
  assumes "parse_url e (song_url songId) = Some a"
    and "network e (get_request a) = Some r"
    and "ok r" and "status r \<noteq> 206"
  shows "CACHE_NAME_v5 = ''ayyappa-songs-v5-cache'' \<and>
         (\<forall>n. n \<noteq> CACHE_NAME_v5 \<longrightarrow> \<not> caches_has (caches (activate_v5 w0)) n) \<and>
         fst (saveOffline e worker True True songId title w) = ToastSaved title \<and>
         entry_in (caches (snd (saveOffline e worker True True songId title w)))
           OFFLINE_SONGS a = Some r \<and>
         \<not> caches_has (caches (activate_v5 (snd (saveOffline e worker True True songId title w))))
             OFFLINE_SONGS \<and>
         entry_in (caches (activate_v5 (snd (saveOffline e worker True True songId title w))))
           OFFLINE_SONGS x = None"
proof -
  have name: "CACHE_NAME_v5 = ''ayyappa-songs-v5-cache''"
    by (simp add: CACHE_NAME_v5_def CACHE_VERSION_def)
  have gone: "\<not> caches_has (caches (activate_v5 v)) n" if "n \<noteq> CACHE_NAME_v5" for v n
    using that by (simp add: activate_v5_filter caches_has_filter_current)
  have saved: "entry_in (caches (snd (saveOffline e worker True True songId title w)))
           OFFLINE_SONGS a = Some r"
    by (simp add: saveOffline_saved [OF assms] entry_in_put caches_has_open get_request_def)
  have toast: "fst (saveOffline e worker True True songId title w) = ToastSaved title"
    by (simp add: saveOffline_saved [OF assms])
  show ?thesis
    using name gone [OF offline_songs_not_current] gone saved toast
    by (simp add: entry_in_absent)
qed

theorem offline_songs_destroyed_witness:
  "parse_url (answering_env page_response) (song_url ''1'') = Some (site @ song1) \<and>
   network (answering_env page_response) (get_request (site @ song1)) = Some page_response \<and>
   ok page_response \<and> status page_response \<noteq> 206 \<and>
   entry_in (caches (snd (saveOffline (answering_env page_response)
       (message_v5 (answering_env page_response)) True True ''1'' ''Harivarasanam'' empty_world)))
     OFFLINE_SONGS (site @ song1) = Some page_response \<and>
   entry_in (caches (activate_v5 (snd (saveOffline (answering_env page_response)
       (message_v5 (answering_env page_response)) True True ''1'' ''Harivarasanam'' empty_world))))
     OFFLINE_SONGS (site @ song1) = None"
proof -
  have p: "parse_url (answering_env page_response) (song_url ''1'') = Some (site @ song1)"
    by (simp add: answering_env_def site_parse_def song_url_def song1_def)
  have n: "network (answering_env page_response) (get_request (site @ song1)) =
      Some page_response"
    by (simp add: answering_env_def)
  have k: "ok page_response" "status page_response \<noteq> 206"
    by (simp_all add: ok_def page_response_def)
  from offline_songs_destroyed [OF p n k] p n k show ?thesis by simp
qed

subsection \<open>Install, revision 7\<close>

lemma cache_one_entry:
  assumes "cache_key (resolve_url e v) = cache_key k \<longrightarrow>
           (case network e (request_of e v) of None \<Rightarrow> True | Some r \<Rightarrow> \<not> ok r)"
  shows "entry_in (caches (cache_one e v w)) n k = entry_in (caches w) n k"
proof (cases "cache_key (resolve_url e v) = cache_key k")
  case True
  with assms show ?thesis
    by (auto simp: cache_one_def Let_def split: option.splits)
next
  case False
  then have "cache_key k \<noteq> cache_key (url (request_of e v))"
    by (auto simp: request_of_def)
  then show ?thesis
    by (simp add: cache_one_def Let_def entry_in_put_other_key split: option.splits)
qed

lemma fold_cache_one_entry:
  assumes "\<forall>v\<in>set us. cache_key (resolve_url e v) = cache_key k \<longrightarrow>
           (case network e (request_of e v) of None \<Rightarrow> True | Some r \<Rightarrow> \<not> ok r)"
  shows "entry_in (caches (fold (cache_one e) us w)) n k = entry_in (caches w) n k"
  using assms
proof (induction us arbitrary: w)
  case Nil
  then show ?case by simp
next
  case (Cons v us)
  then show ?case by (simp add: cache_one_entry)
qed

lemma cache_one_console:
  assumes "network e (request_of e u) = Some r" and "\<not> ok r"
  shows "\<exists>ys. console (cache_one e v w) = console w @ ys \<and>
              Warn (''Failed to cache: '' @ u) \<notin> set ys"
  using assms by (cases "v = u") (auto simp: cache_one_def Let_def split: option.splits)

lemma fold_cache_one_console:
  assumes "network e (request_of e u) = Some r" and "\<not> ok r"
  shows "\<exists>xs. console (fold (cache_one e) us w) = console w @ xs \<and>
              Warn (''Failed to cache: '' @ u) \<notin> set xs"
proof (induction us arbitrary: w)
  case Nil
  then show ?case by simp
next
  case (Cons v us)
  obtain ys where ys: "console (cache_one e v w) = console w @ ys"
      "Warn (''Failed to cache: '' @ u) \<notin> set ys"
    using cache_one_console [OF assms] by blast
  obtain xs where xs: "console (fold (cache_one e) us (cache_one e v w)) =
      console (cache_one e v w) @ xs" "Warn (''Failed to cache: '' @ u) \<notin> set xs"
    using Cons.IH by blast
  from ys xs show ?case by simp
qed

text \<open>The manifest entries have no fragment, so two of them with one cache key are equal.\<close>

lemma CACHE_URLS_keys: "v \<in> set CACHE_URLS \<Longrightarrow> cache_key v = v"
  by (auto simp: CACHE_URLS_def cache_key_def)

lemma manifest_keys_inj:
  assumes "v \<in> set CACHE_URLS" and "u \<in> set CACHE_URLS"
    and "cache_key (resolve_url e v) = cache_key (resolve_url e u)"
  shows "v = u"
  using assms by (simp add: cache_key_resolve_url CACHE_URLS_keys)

lemma install_v7_always_installed: "fst (install_v7 e w) = Installed"
  by (simp add: install_v7_def Let_def)

text \<open>
  C10: in the install of revision 7, a manifest entry whose fetch resolves with a status
  that is not ok is skipped in silence: the install succeeds, the handler logs no warning
  for that entry, and the entry of its URL in the current generation is what it was before
  the install, so it is absent when the generation is new.
\<close>

theorem install_v7_skips_not_ok:
  assumes "u \<in> set CACHE_URLS"
    and "network e (request_of e u) = Some r"
    and "\<not> ok r"
  shows "fst (install_v7 e w) = Installed \<and>
         Warn (''Failed to cache: '' @ u) \<notin>
           set (drop (length (console w)) (console (snd (install_v7 e w)))) \<and>
         entry_in (caches (snd (install_v7 e w))) CACHE_NAME_v7 (resolve_url e u) =
           entry_in (caches w) CACHE_NAME_v7 (resolve_url e u) \<and>
         (\<not> caches_has (caches w) CACHE_NAME_v7 \<longrightarrow>
            entry_in (caches (snd (install_v7 e w))) CACHE_NAME_v7 (resolve_url e u) = None)"
proof -
  let ?w1 = "w\<lparr>caches := caches_open CACHE_NAME_v7 (caches w)\<rparr>"
  let ?w2 = "fold (cache_one e) CACHE_URLS ?w1"
  have inst: "install_v7 e w =
      (Installed, ?w2\<lparr>console := console ?w2 @ [Log ''Service Worker v7 installed'']\<rparr>)"
    by (simp add: install_v7_def Let_def)
  obtain xs where xs: "console ?w2 = console w @ xs"
      "Warn (''Failed to cache: '' @ u) \<notin> set xs"
    using fold_cache_one_console [OF assms(2,3), of CACHE_URLS ?w1] by auto
  have skipped: "\<forall>v\<in>set CACHE_URLS.
      cache_key (resolve_url e v) = cache_key (resolve_url e u) \<longrightarrow>
      (case network e (request_of e v) of None \<Rightarrow> True | Some r \<Rightarrow> \<not> ok r)"
  proof (intro ballI impI)
    fix v assume "v \<in> set CACHE_URLS"
      "cache_key (resolve_url e v) = cache_key (resolve_url e u)"
    then have "v = u"
      using assms(1) by (intro manifest_keys_inj [of v u e])
    then show "case network e (request_of e v) of None \<Rightarrow> True | Some r \<Rightarrow> \<not> ok r"
      using assms(2,3) by simp
  qed
  have entry: "entry_in (caches ?w2) CACHE_NAME_v7 (resolve_url e u) =
      entry_in (caches w) CACHE_NAME_v7 (resolve_url e u)"
    by (simp add: fold_cache_one_entry [OF skipped] entry_in_open)
  show ?thesis
    using xs entry by (simp add: inst entry_in_absent)
qed

theorem install_v7_skips_not_ok_witness:
  "''/offline/'' \<in> set CACHE_URLS \<and>
   network (answering_env not_found_response)
     (request_of (answering_env not_found_response) ''/offline/'') = Some not_found_response \<and>
   \<not> ok not_found_response \<and>
   \<not> caches_has (caches empty_world) CACHE_NAME_v7 \<and>
   fst (install_v7 (answering_env not_found_response) empty_world) = Installed \<and>
   Warn (''Failed to cache: '' @ ''/offline/'') \<notin>
     set (drop (length (console empty_world))
            (console (snd (install_v7 (answering_env not_found_response) empty_world)))) \<and>
   entry_in (caches (snd (install_v7 (answering_env not_found_response) empty_world)))
     CACHE_NAME_v7 (resolve_url (answering_env not_found_response) ''/offline/'') = None"
proof -
  have a: "''/offline/'' \<in> set CACHE_URLS"
    by (simp add: CACHE_URLS_def)
  have n: "network (answering_env not_found_response)
     (request_of (answering_env not_found_response) ''/offline/'') = Some not_found_response"
    by (simp add: answering_env_def)
  have k: "\<not> ok not_found_response"
    by (simp add: ok_def not_found_response_def)
  have h: "\<not> caches_has (caches empty_world) CACHE_NAME_v7"
    by (simp add: empty_world_def caches_has_Nil)
  note t = install_v7_skips_not_ok [OF a n k, of empty_world]
  from t have t1: "fst (install_v7 (answering_env not_found_response) empty_world) = Installed"
    by (rule conjunct1)
  from t have t2: "Warn (''Failed to cache: '' @ ''/offline/'') \<notin>
     set (drop (length (console empty_world))
            (console (snd (install_v7 (answering_env not_found_response) empty_world))))"
    by (elim conjE)
  from t h have t3: "entry_in (caches (snd (install_v7 (answering_env not_found_response) empty_world)))
     CACHE_NAME_v7 (resolve_url (answering_env not_found_response) ''/offline/'') = None"
    by (elim conjE) (erule mp)
  from a n k h t1 t2 t3 show ?thesis by (intro conjI)
qed

end
